theory Spec2Isabelle
  imports Main
begin

section \<open>JavaScript values and failures\<close>

text \<open>
  The streams of \<open>MotionObservable\<close> carry dynamically typed JavaScript values.
  Numbers are represented by the integers (every number the operators below compare
  with is integral); an object is the list of its own properties; a function is known
  by a name only.
\<close>

datatype jsval =
    Undefined
  | Null
  | Bool bool
  | Num int
  | Str string
  | Obj "(string \<times> jsval) list"
  | Function string

text \<open>The only exception the operators can raise themselves: reading a property of
  \<open>undefined\<close> or \<open>null\<close>, or calling a method on them.\<close>

datatype error = TypeError

text \<open>
  A JavaScript procedure run on a state either does not return (\<open>None\<close>), throws
  (\<open>Some (Inl e)\<close>) or returns in a new state (\<open>Some (Inr w)\<close>).
\<close>

type_synonym 'w proc = "'w \<Rightarrow> (error + 'w) option"

definition returns :: "'w proc" where
  "returns w = Some (Inr w)"

definition throws :: "error \<Rightarrow> 'w proc" where
  "throws e w = Some (Inl e)"

text \<open>Statement sequencing \<open>p; q\<close>: \<open>q\<close> runs only when \<open>p\<close> returned.\<close>

definition seq :: "'w proc \<Rightarrow> 'w proc \<Rightarrow> 'w proc" where
  "seq p q w =
     (case p w of
        None \<Rightarrow> None
      | Some (Inl e) \<Rightarrow> Some (Inl e)
      | Some (Inr w') \<Rightarrow> q w')"

section \<open>The state outside the stream objects\<close>

text \<open>
  Stream objects are immutable; what changes lives in closures and in the host. One
  record holds all of it: what the test observers received, the console, a mock root
  source that counts its subscriptions, the closure variables of one \<open>_remember()\<close>
  call, of one \<open>dedupe()\<close> call and of one \<open>_debounce()\<close> call, and the host's
  queue of animation-frame callbacks. The state \<open>world\<close> has in addition the
  observers that a subject keeps, which are functions on the rest of the state.
\<close>

type_synonym obs = nat
type_synonym handle = nat

record core =
  received :: "(obs \<times> jsval) list"
  console_log :: "(string \<times> jsval) list"
  console_warn :: "obs list"
  source_subscribes :: nat
  source_unsubscribes :: nat
  source_live :: "handle list"
  observers :: "obs option list"
  subscription :: "handle option option"
  remember_lastValue :: jsval
  hasStarted :: bool
  dispatched :: bool
  dedupe_lastValue :: jsval
  queuedFrameID :: nat
  debounce_lastValue :: jsval
  frame_callbacks :: "(nat \<times> obs) list"
  frame_counter :: nat

record world = core +
  subject_observers :: "(handle \<times> (jsval \<Rightarrow> core \<Rightarrow> (error + core) option)) list"

type_synonym NextChannel = "jsval \<Rightarrow> world proc"

section \<open>The observable primitive\<close>

text \<open>
  The constructor a stream object was made with. \<open>Subclass n\<close> stands for any class
  that extends \<open>MotionObservable\<close>.
\<close>

datatype ctor = MotionObservable | Subclass string

text \<open>
  A stream object: its runtime constructor and the \<open>connect\<close> function it was given.
  \<open>connect\<close> receives the observer and returns the disconnect function, or
  \<open>undefined\<close>. A disconnect function is named by a handle, which \<open>disconnect\<close>
  runs. The type \<open>'o\<close> is what the stream knows of its observer: its \<open>next\<close>
  channel alone, or the identity of the observer object where the code compares or
  stores observers.
\<close>

record 'o stream =
  constructor :: ctor
  connect :: "'o \<Rightarrow> world \<Rightarrow> (error + (handle option \<times> world)) option"
  disconnect :: "handle \<Rightarrow> world proc"

text \<open>
  Modelled from the spec: the observable primitive this engine extends is an external
  dependency (\<open>indefinite-observable\<close>). \<open>subscribe\<close> calls the producer with the
  observer and returns a subscription; \<open>unsubscribe\<close> on it runs the teardown the
  producer returned, if it returned one.
\<close>

definition subscribe :: "'o stream \<Rightarrow> 'o \<Rightarrow> world \<Rightarrow> (error + (handle option \<times> world)) option" where
  "subscribe s observer w = connect s observer w"

definition unsubscribe :: "'o stream \<Rightarrow> handle option \<Rightarrow> world proc" where
  "unsubscribe s sub w =
     (case sub of
        None \<Rightarrow> returns w
      | Some h \<Rightarrow> disconnect s h w)"

text \<open>
  The root of the chains below: a source of the kind the tests use. It records each
  subscription and each teardown and dispatches nothing by itself; \<open>source_dispatch\<close>
  is the test pushing a value to the observers still subscribed, \<open>cb h\<close> being the
  observer that the subscription with handle \<open>h\<close> registered.
\<close>

definition source :: "ctor \<Rightarrow> NextChannel stream" where
  "source c =
     \<lparr> constructor = c,
       connect = (\<lambda>observer w.
         Some (Inr (Some (source_subscribes w),
           w\<lparr> source_subscribes := Suc (source_subscribes w),
              source_live := source_live w @ [source_subscribes w] \<rparr>))),
       disconnect = (\<lambda>h w.
         returns (w\<lparr> source_unsubscribes := Suc (source_unsubscribes w),
                     source_live := removeAll h (source_live w) \<rparr>)) \<rparr>"

fun dispatch_all :: "(handle \<Rightarrow> NextChannel) \<Rightarrow> handle list \<Rightarrow> NextChannel" where
  "dispatch_all cb [] v w = returns w"
| "dispatch_all cb (h # hs) v w = seq (cb h v) (dispatch_all cb hs v) w"

definition source_dispatch :: "(handle \<Rightarrow> NextChannel) \<Rightarrow> NextChannel" where
  "source_dispatch cb v w = dispatch_all cb (source_live w) v w"

text \<open>
  A subject: a source that keeps the observers subscribed to it and, when
  \<open>subject_next\<close> sends it a value, passes the value to each of them in the order
  they subscribed. It counts its subscriptions as \<open>source\<close> does. The state cannot
  hold a function on the whole of itself, so an observer is kept as a function on the
  state without the subject's own list: it runs with that list empty, and the list is
  put back when it has returned. An observer that subscribes to the subject, or
  unsubscribes from it, while it is handed a value is therefore not represented.
\<close>

definition keep :: "NextChannel \<Rightarrow> jsval \<Rightarrow> core \<Rightarrow> (error + core) option" where
  "keep observer v c =
     (case observer v (core.extend c (world.fields [])) of
        None \<Rightarrow> None
      | Some (Inl e) \<Rightarrow> Some (Inl e)
      | Some (Inr w) \<Rightarrow> Some (Inr (core.truncate w)))"

definition subject :: "ctor \<Rightarrow> NextChannel stream" where
  "subject c =
     \<lparr> constructor = c,
       connect = (\<lambda>observer w.
         Some (Inr (Some (source_subscribes w),
           w\<lparr> source_subscribes := Suc (source_subscribes w),
              source_live := source_live w @ [source_subscribes w],
              subject_observers :=
                subject_observers w @ [(source_subscribes w, keep observer)] \<rparr>))),
       disconnect = (\<lambda>h w.
         returns (w\<lparr> source_unsubscribes := Suc (source_unsubscribes w),
                     source_live := removeAll h (source_live w),
                     subject_observers :=
                       filter (\<lambda>kept. fst kept \<noteq> h) (subject_observers w) \<rparr>)) \<rparr>"

fun next_kept ::
  "(handle \<times> (jsval \<Rightarrow> core \<Rightarrow> (error + core) option)) list \<Rightarrow> NextChannel" where
  "next_kept [] v w = returns w"
| "next_kept (kept # rest) v w =
     (case snd kept v (core.truncate w) of
        None \<Rightarrow> None
      | Some (Inl e) \<Rightarrow> Some (Inl e)
      | Some (Inr c) \<Rightarrow>
          next_kept rest v (core.extend c (world.fields (subject_observers w))))"

definition subject_next :: NextChannel where
  "subject_next v w = next_kept (subject_observers w) v w"

text \<open>A test observer: its \<open>next\<close> appends the value to what it has received.\<close>

definition probe :: "obs \<Rightarrow> NextChannel" where
  "probe ob v w = returns (w\<lparr> received := received w @ [(ob, v)] \<rparr>)"

definition world0 :: world where
  "world0 =
     \<lparr> received = [], console_log = [], console_warn = [],
       source_subscribes = 0, source_unsubscribes = 0, source_live = [],
       observers = [], subscription = None, remember_lastValue = Undefined,
       hasStarted = False, dispatched = False, dedupe_lastValue = Undefined,
       queuedFrameID = 0, debounce_lastValue = Undefined,
       frame_callbacks = [], frame_counter = 0, subject_observers = [] \<rparr>"

section \<open>The operator engine\<close>

text \<open>
  \<open>_nextOperator\<close>: a new stream of the constructor of \<open>this\<close>, whose connect
  subscribes to \<open>this\<close> with \<open>value => operation(value, observer.next)\<close> and
  returns the \<open>unsubscribe\<close> of that subscription.
\<close>

type_synonym 'n NextOperation = "jsval \<Rightarrow> 'n \<Rightarrow> world proc"

definition nextOperator :: "'n NextOperation \<Rightarrow> NextChannel stream \<Rightarrow> 'n stream" where
  "nextOperator operation this =
     \<lparr> constructor = constructor this,
       connect = (\<lambda>observer w. subscribe this (\<lambda>value. operation value observer) w),
       disconnect = (\<lambda>h w. unsubscribe this (Some h) w) \<rparr>"

subsection \<open>map, filter, mapTo, inverted\<close>

definition map_stream :: "(jsval \<Rightarrow> error + jsval) \<Rightarrow> NextChannel stream \<Rightarrow> NextChannel stream" where
  "map_stream transform this =
     nextOperator (\<lambda>value nextChannel w.
       case transform value of
         Inl e \<Rightarrow> throws e w
       | Inr u \<Rightarrow> nextChannel u w) this"

definition filter_stream :: "(jsval \<Rightarrow> bool) \<Rightarrow> NextChannel stream \<Rightarrow> NextChannel stream" where
  "filter_stream predicate this =
     nextOperator (\<lambda>value nextChannel w.
       if predicate value then nextChannel value w else returns w) this"

definition mapTo :: "jsval \<Rightarrow> NextChannel stream \<Rightarrow> NextChannel stream" where
  "mapTo value this = nextOperator (\<lambda>_ dispatch w. dispatch value w) this"

text \<open>The \<open>switch\<close> of \<open>inverted\<close> compares with \<open>===\<close>: no case matches a string,
  an object, \<open>null\<close>, \<open>undefined\<close> or another number.\<close>

definition inverted_operation :: "NextChannel NextOperation" where
  "inverted_operation value dispatch w =
     (if value = Num 0 then dispatch (Num 1) w
      else if value = Num 1 then dispatch (Num 0) w
      else if value = Bool False then dispatch (Bool True) w
      else if value = Bool True then dispatch (Bool False) w
      else returns w)"

definition inverted :: "NextChannel stream \<Rightarrow> NextChannel stream" where
  "inverted this = nextOperator inverted_operation this"

subsection \<open>The path resolver, pluck and log\<close>

text \<open>\<open>path.split('.')\<close>: never empty, \<open>''.split('.')\<close> is \<open>['']\<close>.\<close>

fun split_dot :: "string \<Rightarrow> string list" where
  "split_dot [] = [[]]"
| "split_dot (c # cs) =
     (if c = CHR ''.'' then [] # split_dot cs
      else (case split_dot cs of
              [] \<Rightarrow> [[c]]
            | s # ss \<Rightarrow> (c # s) # ss))"

text \<open>
  \<open>result[pathSegment]\<close>: a TypeError on \<open>undefined\<close> and \<open>null\<close>; on an object
  its own property of that name. What the read finds otherwise is the language's
  affair and not this program's (an inherited property, the \<open>length\<close> of a string,
  \<open>undefined\<close> when there is nothing): the parameter \<open>inherited\<close> stands for it.
\<close>

type_synonym lookup = "jsval \<Rightarrow> string \<Rightarrow> jsval"

fun get_property :: "lookup \<Rightarrow> jsval \<Rightarrow> string \<Rightarrow> error + jsval" where
  "get_property inherited Undefined k = Inl TypeError"
| "get_property inherited Null k = Inl TypeError"
| "get_property inherited (Obj kvs) k =
     (case map_of kvs k of
        None \<Rightarrow> Inr (inherited (Obj kvs) k)
      | Some v \<Rightarrow> Inr v)"
| "get_property inherited v k = Inr (inherited v k)"

fun plucker :: "lookup \<Rightarrow> string list \<Rightarrow> jsval \<Rightarrow> error + jsval" where
  "plucker inherited [] result = Inr result"
| "plucker inherited (pathSegment # pathSegments) result =
     (case get_property inherited result pathSegment of
        Inl e \<Rightarrow> Inl e
      | Inr r \<Rightarrow> plucker inherited pathSegments r)"

definition createPlucker :: "lookup \<Rightarrow> string \<Rightarrow> jsval \<Rightarrow> error + jsval" where
  "createPlucker inherited path = plucker inherited (split_dot path)"

definition pluck :: "lookup \<Rightarrow> string \<Rightarrow> NextChannel stream \<Rightarrow> NextChannel stream" where
  "pluck inherited path this = map_stream (createPlucker inherited path) this"

text \<open>
  \<open>log\<close>: with a non-empty \<open>pluckPath\<close> the operation assigns the plucked value to
  \<open>value\<close>, logs it and passes it to \<open>nextChannel\<close>.
\<close>

definition log_operation :: "lookup \<Rightarrow> string \<Rightarrow> string \<Rightarrow> NextChannel NextOperation" where
  "log_operation inherited label pluckPath value nextChannel w =
     (case (if pluckPath \<noteq> [] then createPlucker inherited pluckPath value else Inr value) of
        Inl e \<Rightarrow> throws e w
      | Inr value' \<Rightarrow>
          nextChannel value' (w\<lparr> console_log := console_log w @ [(label, value')] \<rparr>))"

definition log ::
  "lookup \<Rightarrow> string \<Rightarrow> string \<Rightarrow> NextChannel stream \<Rightarrow> NextChannel stream" where
  "log inherited label pluckPath this =
     nextOperator (log_operation inherited label pluckPath) this"

section \<open>Multicast: \<open>_remember\<close>\<close>

text \<open>
  \<open>observers\<close> is a JavaScript \<open>Set\<close>: its entries in insertion order, a deleted
  entry leaving an empty slot, so that \<open>forEach\<close> visits the entries added while it
  runs and skips those deleted before it reaches them.
\<close>

definition set_has :: "obs option list \<Rightarrow> obs \<Rightarrow> bool" where
  "set_has entries ob = (Some ob \<in> set entries)"

definition set_size :: "obs option list \<Rightarrow> nat" where
  "set_size entries = length (filter (\<lambda>e. e \<noteq> None) entries)"

definition set_add :: "obs option list \<Rightarrow> obs \<Rightarrow> obs option list" where
  "set_add entries ob = (if set_has entries ob then entries else entries @ [Some ob])"

definition set_delete :: "obs option list \<Rightarrow> obs \<Rightarrow> obs option list" where
  "set_delete entries ob = map (\<lambda>e. if e = Some ob then None else e) entries"

text \<open>\<open>observers.forEach(callback)\<close>, from entry \<open>i\<close> on. The callback may change
  \<open>observers\<close>; the loop need not end.\<close>

partial_function (option) forEach_from :: "(obs \<Rightarrow> world proc) \<Rightarrow> nat \<Rightarrow> world proc" where
  "forEach_from callback i w =
     (if i < length (observers w) then
        (case observers w ! i of
           None \<Rightarrow> forEach_from callback (Suc i) w
         | Some ob \<Rightarrow>
             (case callback ob w of
                None \<Rightarrow> None
              | Some (Inl e) \<Rightarrow> Some (Inl e)
              | Some (Inr w') \<Rightarrow> forEach_from callback (Suc i) w'))
      else Some (Inr w))"

declare forEach_from.simps [code]

text \<open>
  The observer \<open>_remember\<close> subscribes to its parent with: it passes the value to the
  observers, then sets \<open>hasStarted\<close> and \<open>lastValue\<close>. \<open>onext ob\<close> is the
  \<open>next\<close> of the observer object \<open>ob\<close>.
\<close>

definition remember_next :: "(obs \<Rightarrow> NextChannel) \<Rightarrow> NextChannel" where
  "remember_next onext value w =
     (case forEach_from (\<lambda>observer. onext observer value) 0 w of
        None \<Rightarrow> None
      | Some (Inl e) \<Rightarrow> Some (Inl e)
      | Some (Inr w') \<Rightarrow> Some (Inr (w'\<lparr> hasStarted := True, remember_lastValue := value \<rparr>)))"

text \<open>The connect function of the remembered stream.\<close>

definition remember_connect ::
  "(obs \<Rightarrow> NextChannel) \<Rightarrow> NextChannel stream \<Rightarrow> obs \<Rightarrow> world \<Rightarrow> (error + (handle option \<times> world)) option" where
  "remember_connect onext this observer w =
     (if set_has (observers w) observer then
        Some (Inr (None, w\<lparr> console_warn := console_warn w @ [observer] \<rparr>))
      else
        (case (if set_size (observers w) = 0 then
                 (case subscribe this (remember_next onext) w of
                    None \<Rightarrow> None
                  | Some (Inl e) \<Rightarrow> Some (Inl e)
                  | Some (Inr (sub, w')) \<Rightarrow> Some (Inr (w'\<lparr> subscription := Some sub \<rparr>)))
               else Some (Inr w)) of
           None \<Rightarrow> None
         | Some (Inl e) \<Rightarrow> Some (Inl e)
         | Some (Inr w1) \<Rightarrow>
             (let w2 = w1\<lparr> observers := set_add (observers w1) observer \<rparr> in
              case (if hasStarted w2 then onext observer (remember_lastValue w2) w2
                    else Some (Inr w2)) of
                None \<Rightarrow> None
              | Some (Inl e) \<Rightarrow> Some (Inl e)
              | Some (Inr w3) \<Rightarrow> Some (Inr (Some observer, w3)))))"

text \<open>The disconnect function it returns for \<open>observer\<close>. \<open>subscription\<close> is
  \<open>undefined\<close> or \<open>null\<close> when it is \<open>None\<close>: calling its \<open>unsubscribe\<close> throws.\<close>

definition remember_disconnect :: "NextChannel stream \<Rightarrow> obs \<Rightarrow> world proc" where
  "remember_disconnect this observer w =
     (let w1 = w\<lparr> observers := set_delete (observers w) observer \<rparr> in
      if set_size (observers w1) = 0 then
        (case subscription w1 of
           None \<Rightarrow> Some (Inl TypeError)
         | Some sub \<Rightarrow>
             (case unsubscribe this sub w1 of
                None \<Rightarrow> None
              | Some (Inl e) \<Rightarrow> Some (Inl e)
              | Some (Inr w2) \<Rightarrow> Some (Inr (w2\<lparr> subscription := None \<rparr>))))
      else Some (Inr w1))"

text \<open>\<open>_remember\<close> makes the new stream with \<open>new MotionObservable\<close>.\<close>

definition remember :: "(obs \<Rightarrow> NextChannel) \<Rightarrow> NextChannel stream \<Rightarrow> obs stream" where
  "remember onext this =
     \<lparr> constructor = MotionObservable,
       connect = remember_connect onext this,
       disconnect = remember_disconnect this \<rparr>"

section \<open>dedupe\<close>

text \<open>
  Modelled from the spec: the default equality predicate (\<open>deep-equal\<close>, an external
  dependency) is deep structural equality. Two objects are equal when they have the
  same property names and, under each name, equal values, in whatever order the
  properties are listed; any other two values are equal when they are the same value.
  The library's loose comparison of primitive values of different types (\<open>1\<close> and
  \<open>'1'\<close>) is not represented.
\<close>

function (sequential) deepEqual :: "jsval \<Rightarrow> jsval \<Rightarrow> bool" where
  "deepEqual (Obj xs) (Obj ys) =
     (set (map fst xs) = set (map fst ys) \<and>
      list_all (\<lambda>k. case map_of xs k of
                       None \<Rightarrow> False
                     | Some x \<Rightarrow> (case map_of ys k of
                                    None \<Rightarrow> False
                                  | Some y \<Rightarrow> deepEqual x y)) (map fst xs))"
| "deepEqual a b = (a = b)"
  by pat_completeness auto
termination
proof (relation "measure (\<lambda>(a, b). size a)")
  show "wf (measure (\<lambda>(a, b). size a))"
    by simp
next
  fix xs ys :: "(string \<times> jsval) list" and k x y
  assume "map_of xs k = Some x"
  moreover have "map_of zs k = Some x \<Longrightarrow>
      size x < Suc (size_list (size_prod (\<lambda>_. 0) size) zs)" for zs
    by (induction zs) (auto split: if_splits)
  ultimately show "((x, y), (Obj xs, Obj ys)) \<in> measure (\<lambda>(a, b). size a)"
    by simp
qed

definition dedupe_operation :: "(jsval \<Rightarrow> jsval \<Rightarrow> bool) \<Rightarrow> NextChannel NextOperation" where
  "dedupe_operation areEqual value dispatch w =
     (if dispatched w \<and> areEqual value (dedupe_lastValue w) then returns w
      else dispatch value (w\<lparr> dedupe_lastValue := value, dispatched := True \<rparr>))"

definition dedupe ::
  "(jsval \<Rightarrow> jsval \<Rightarrow> bool) \<Rightarrow> (obs \<Rightarrow> NextChannel) \<Rightarrow> NextChannel stream \<Rightarrow> obs stream" where
  "dedupe areEqual onext this = remember onext (nextOperator (dedupe_operation areEqual) this)"

section \<open>debounce\<close>

text \<open>
  \<open>requestAnimationFrame(callback)\<close>: queues the callback and returns its handle, a
  number above zero. The callbacks \<open>_debounce\<close> queues differ in the \<open>nextChannel\<close>
  they call only, so the queue keeps the observer. \<open>tick\<close> is the host running the
  callbacks queued so far, in order.
\<close>

definition debounce_operation :: "obs NextOperation" where
  "debounce_operation value observer w =
     (let w1 = w\<lparr> debounce_lastValue := value \<rparr> in
      if queuedFrameID w1 = 0 then
        returns (w1\<lparr> frame_counter := Suc (frame_counter w1),
                     frame_callbacks := frame_callbacks w1 @ [(Suc (frame_counter w1), observer)],
                     queuedFrameID := Suc (frame_counter w1) \<rparr>)
      else returns w1)"

definition frame_callback :: "(obs \<Rightarrow> NextChannel) \<Rightarrow> obs \<Rightarrow> world proc" where
  "frame_callback onext observer w =
     (case onext observer (debounce_lastValue w) w of
        None \<Rightarrow> None
      | Some (Inl e) \<Rightarrow> Some (Inl e)
      | Some (Inr w') \<Rightarrow> Some (Inr (w'\<lparr> queuedFrameID := 0 \<rparr>)))"

fun run_callbacks :: "(obs \<Rightarrow> NextChannel) \<Rightarrow> (nat \<times> obs) list \<Rightarrow> world proc" where
  "run_callbacks onext [] w = returns w"
| "run_callbacks onext ((h, observer) # cbs) w =
     seq (frame_callback onext observer) (run_callbacks onext cbs) w"

definition tick :: "(obs \<Rightarrow> NextChannel) \<Rightarrow> world proc" where
  "tick onext w = run_callbacks onext (frame_callbacks w) (w\<lparr> frame_callbacks := [] \<rparr>)"

definition debounce :: "NextChannel stream \<Rightarrow> obs stream" where
  "debounce this = nextOperator debounce_operation this"

section \<open>Driving a chain\<close>

text \<open>A cold source that dispatches the given values, in order, to each observer
  while it subscribes, and has nothing to tear down.\<close>

fun next_each :: "NextChannel \<Rightarrow> jsval list \<Rightarrow> world proc" where
  "next_each observer [] w = returns w"
| "next_each observer (v # vs) w = seq (observer v) (next_each observer vs) w"

definition from_values :: "ctor \<Rightarrow> jsval list \<Rightarrow> NextChannel stream" where
  "from_values c vs =
     \<lparr> constructor = c,
       connect = (\<lambda>observer w.
         case next_each observer vs w of
           None \<Rightarrow> None
         | Some (Inl e) \<Rightarrow> Some (Inl e)
         | Some (Inr w') \<Rightarrow> Some (Inr (None, w'))),
       disconnect = (\<lambda>h w. returns w) \<rparr>"

text \<open>\<open>stream.subscribe(observer)\<close> as a statement, and a list of statements run in
  order.\<close>

definition subscribe_stmt :: "'o stream \<Rightarrow> 'o \<Rightarrow> world proc" where
  "subscribe_stmt s observer w =
     (case subscribe s observer w of
        None \<Rightarrow> None
      | Some (Inl e) \<Rightarrow> Some (Inl e)
      | Some (Inr (sub, w')) \<Rightarrow> Some (Inr w'))"

fun run :: "world proc list \<Rightarrow> world proc" where
  "run [] w = returns w"
| "run (p # ps) w = seq p (run ps) w"

text \<open>Reading a part of the state once a run has returned, such as what the
  observers have received.\<close>

definition observe :: "(world \<Rightarrow> 'a) \<Rightarrow> (error + world) option \<Rightarrow> 'a option" where
  "observe part r =
     (case r of
        None \<Rightarrow> None
      | Some (Inl e) \<Rightarrow> None
      | Some (Inr w) \<Rightarrow> Some (part w))"

text \<open>The observers in a \<open>Set\<close>, in the order \<open>forEach\<close> visits them.\<close>

fun set_values :: "obs option list \<Rightarrow> obs list" where
  "set_values [] = []"
| "set_values (None # entries) = set_values entries"
| "set_values (Some ob # entries) = ob # set_values entries"

text \<open>
  The observers registered at the mock source by the chains below. \<open>_remember\<close>
  subscribes to its parent with \<open>remember_next\<close>; below \<open>dedupe\<close> the source holds
  the observer \<open>_nextOperator\<close> made around it; below \<open>_debounce\<close> with the one
  subscriber \<open>observer\<close>, the observer \<open>_nextOperator\<close> made for that subscriber.
\<close>

definition remember_upstream :: "(obs \<Rightarrow> NextChannel) \<Rightarrow> handle \<Rightarrow> NextChannel" where
  "remember_upstream onext h = remember_next onext"

definition dedupe_upstream ::
  "(jsval \<Rightarrow> jsval \<Rightarrow> bool) \<Rightarrow> (obs \<Rightarrow> NextChannel) \<Rightarrow> handle \<Rightarrow> NextChannel" where
  "dedupe_upstream areEqual onext h value = dedupe_operation areEqual value (remember_next onext)"

definition debounce_upstream :: "obs \<Rightarrow> handle \<Rightarrow> NextChannel" where
  "debounce_upstream observer h value = debounce_operation value observer"

text \<open>
  An observer that re-enters the remembered stream: \<open>ob\<close> records each value, and
  on receiving \<open>trigger\<close> it subscribes the recording observer \<open>newcomer\<close> to the
  remembered stream before its \<open>next\<close> returns. Every other observer only records.
\<close>

definition subscribing_next ::
  "obs \<Rightarrow> jsval \<Rightarrow> obs \<Rightarrow> NextChannel stream \<Rightarrow> obs \<Rightarrow> NextChannel" where
  "subscribing_next ob trigger newcomer this observer value w =
     (if observer = ob \<and> value = trigger then
        seq (probe observer value) (subscribe_stmt (remember probe this) newcomer) w
      else probe observer value w)"

text \<open>
  What a debounced stream with recording observers goes through: the observer made
  for subscriber \<open>ob\<close> receives a value from upstream, or the clock ticks.
\<close>

datatype debounce_event = Receive obs jsval | Tick

fun debounce_step :: "debounce_event \<Rightarrow> world proc" where
  "debounce_step (Receive ob v) w = debounce_operation v ob w"
| "debounce_step Tick w = tick probe w"

fun debounce_run :: "debounce_event list \<Rightarrow> world proc" where
  "debounce_run [] w = returns w"
| "debounce_run (e # es) w = seq (debounce_step e) (debounce_run es) w"

text \<open>
  The same seen from outside a debounced stream over a subject: the subject is sent
  a value, or the clock ticks.
\<close>

datatype clock_event = Upstream jsval | Clock

fun clock_step :: "clock_event \<Rightarrow> world proc" where
  "clock_step (Upstream v) w = subject_next v w"
| "clock_step Clock w = tick probe w"

fun upstream_values :: "clock_event list \<Rightarrow> jsval list" where
  "upstream_values [] = []"
| "upstream_values (Upstream v # es) = v # upstream_values es"
| "upstream_values (Clock # es) = upstream_values es"

fun received_values :: "debounce_event list \<Rightarrow> jsval list" where
  "received_values [] = []"
| "received_values (Receive ob v # es) = v # received_values es"
| "received_values (Tick # es) = received_values es"

text \<open>
  What holds of the one \<open>_debounce()\<close> closure and the frame queue between events,
  \<open>vs\<close> being the values received so far: no callback is queued and
  \<open>queuedFrameID\<close> is unset, or exactly one is queued, under the handle kept in
  \<open>queuedFrameID\<close>, and \<open>lastValue\<close> is the latest value received.
\<close>

definition debounce_inv :: "jsval list \<Rightarrow> world \<Rightarrow> bool" where
  "debounce_inv vs w \<longleftrightarrow>
     (queuedFrameID w = 0 \<and> frame_callbacks w = []) \<or>
     (\<exists>ob. queuedFrameID w \<noteq> 0 \<and> frame_callbacks w = [(queuedFrameID w, ob)]
        \<and> vs \<noteq> [] \<and> debounce_lastValue w = last vs)"

section \<open>Unfolding\<close>

lemmas proc_defs = returns_def throws_def seq_def

lemmas engine_defs =
  subscribe_def unsubscribe_def nextOperator_def subscribe_stmt_def from_values_def
  probe_def observe_def

lemmas set_defs = set_has_def set_size_def set_add_def set_delete_def

lemmas source_defs = source_def source_dispatch_def

lemma nextOperator_subscribe:
  "subscribe (nextOperator operation this) observer w =
   subscribe this (\<lambda>value. operation value observer) w"
  by (simp add: nextOperator_def subscribe_def)

lemma nextOperator_constructor: "constructor (nextOperator operation this) = constructor this"
  by (simp add: nextOperator_def)

text \<open>The observers that the chains hand to their parent are the ones
  \<open>source_dispatch\<close> is given in the scenarios below.\<close>

lemma debounce_registers:
  "subscribe (debounce this) observer w = subscribe this (debounce_upstream observer h) w"
proof -
  have "debounce_upstream observer h = (\<lambda>value. debounce_operation value observer)"
    by (simp add: debounce_upstream_def fun_eq_iff)
  then show ?thesis
    by (simp add: debounce_def nextOperator_subscribe)
qed

lemma dedupe_registers:
  "subscribe (nextOperator (dedupe_operation areEqual) this) (remember_upstream onext h') w
     = subscribe this (dedupe_upstream areEqual onext h) w"
proof -
  have "dedupe_upstream areEqual onext h
      = (\<lambda>value. dedupe_operation areEqual value (remember_upstream onext h'))"
    by (simp add: dedupe_upstream_def remember_upstream_def fun_eq_iff)
  then show ?thesis
    by (simp add: nextOperator_subscribe)
qed

lemma remember_registers:
  assumes "\<not> set_has (observers w) observer" and "set_size (observers w) = 0"
    and "subscribe this (remember_upstream onext h) w = Some (Inr (sub, w'))"
    and "\<not> hasStarted w'"
  shows "remember_connect onext this observer w =
    Some (Inr (Some observer,
      w'\<lparr> subscription := Some sub, observers := set_add (observers w') observer \<rparr>))"
  using assms by (simp add: remember_connect_def remember_upstream_def Let_def)

section \<open>inverted\<close>

text \<open>
  C9. An inverted stream that receives 0, 1, true, false, 2 dispatches 1, 0, false,
  true to its subscriber and nothing for the 2; whatever value is none of 0, 1, true
  and false makes the operation return without calling \<open>dispatch\<close>.
\<close>

theorem inverted_toggles_and_drops:
  "observe received
     (subscribe_stmt (inverted (from_values c [Num 0, Num 1, Bool True, Bool False, Num 2]))
        (probe 0) world0)
     = Some [(0, Num 1), (0, Num 0), (0, Bool False), (0, Bool True)]
   \<and> (value \<notin> {Num 0, Num 1, Bool True, Bool False}
        \<longrightarrow> inverted_operation value dispatch w = returns w)"
  by (simp add: inverted_def inverted_operation_def engine_defs proc_defs world0_def)

theorem inverted_toggles_and_drops_witness:
  "Str ''2'' \<notin> {Num 0, Num 1, Bool True, Bool False}
   \<and> inverted_operation (Str ''2'') (probe 0) world0 = returns world0"
  using inverted_toggles_and_drops [of MotionObservable "Str ''2''" "probe 0" world0]
  by simp

section \<open>pluck\<close>

lemma get_property_fails:
  "get_property inherited r k = Inl e \<longleftrightarrow> (r = Null \<or> r = Undefined)"
  by (cases r; cases e) (auto split: option.splits)

text \<open>The walk fails exactly when the value it started from, or the value some proper
  prefix of the segments led to, is \<open>null\<close> or \<open>undefined\<close>.\<close>

lemma plucker_fails_iff:
  "plucker inherited segs v = Inl TypeError \<longleftrightarrow>
   (\<exists>n. n < length segs \<and>
      (plucker inherited (take n segs) v = Inr Null
       \<or> plucker inherited (take n segs) v = Inr Undefined))"
proof (induction segs arbitrary: v)
  case Nil
  then show ?case by simp
next
  case (Cons s segs)
  let ?hit = "\<lambda>ss x n. n < length ss \<and>
    (plucker inherited (take n ss) x = Inr Null
     \<or> plucker inherited (take n ss) x = Inr Undefined)"
  show ?case
  proof (cases "get_property inherited v s")
    case (Inl e)
    then have "v = Null \<or> v = Undefined"
      using get_property_fails by blast
    then have "?hit (s # segs) v 0"
      by auto
    then have "\<exists>n. ?hit (s # segs) v n"
      by blast
    moreover have "plucker inherited (s # segs) v = Inl TypeError"
      using Inl by (cases e) simp
    ultimately show ?thesis
      by simp
  next
    case (Inr r)
    have nv: "v \<noteq> Null \<and> v \<noteq> Undefined"
      using Inr by (cases v) auto
    have "plucker inherited (s # segs) v = Inl TypeError
        \<longleftrightarrow> plucker inherited segs r = Inl TypeError"
      using Inr by simp
    also have "\<dots> \<longleftrightarrow> (\<exists>n. ?hit segs r n)"
      by (rule Cons.IH)
    also have "\<dots> \<longleftrightarrow> (\<exists>n. ?hit (s # segs) v n)"
    proof
      assume "\<exists>n. ?hit segs r n"
      then obtain n where "?hit segs r n"
        by blast
      then have "?hit (s # segs) v (Suc n)"
        using Inr by simp
      then show "\<exists>n. ?hit (s # segs) v n"
        by blast
    next
      assume "\<exists>n. ?hit (s # segs) v n"
      then obtain n where n: "?hit (s # segs) v n"
        by blast
      show "\<exists>n. ?hit segs r n"
      proof (cases n)
        case 0
        with n nv show ?thesis
          by auto
      next
        case (Suc m)
        with n Inr have "?hit segs r m"
          by simp
        then show ?thesis
          by blast
      qed
    qed
    finally show ?thesis .
  qed
qed

text \<open>
  C10. \<open>pluck('a.b')\<close> dispatches 7 on receiving \<open>{a: {b: 7}}\<close>. On receiving
  \<open>{a: null}\<close> the TypeError of the property read comes out of the call that
  delivered the value, and the subscriber receives nothing. On an object the plucker
  fails exactly when a segment before the last resolves to \<open>null\<close> or
  \<open>undefined\<close>. The observer that \<open>pluck\<close> subscribes to its parent with throws
  what the plucker throws, without calling the downstream observer.
\<close>

theorem pluck_dispatches_or_throws:
  "observe received
     (subscribe_stmt
        (pluck inherited ''a.b'' (from_values c [Obj [(''a'', Obj [(''b'', Num 7)])]]))
        (probe 0) world0)
     = Some [(0, Num 7)]
   \<and> subscribe_stmt (pluck inherited ''a.b'' (from_values c [Obj [(''a'', Null)]]))
       (probe 0) world0
     = Some (Inl TypeError)
   \<and> (createPlucker inherited path (Obj kvs) = Inl TypeError \<longleftrightarrow>
        (\<exists>n. 0 < n \<and> n < length (split_dot path) \<and>
           (plucker inherited (take n (split_dot path)) (Obj kvs) = Inr Null
            \<or> plucker inherited (take n (split_dot path)) (Obj kvs) = Inr Undefined)))
   \<and> subscribe (pluck inherited path this) observer w =
       subscribe this
         (\<lambda>value w'. case createPlucker inherited path value of
                        Inl e \<Rightarrow> Some (Inl e)
                      | Inr u \<Rightarrow> observer u w') w"
proof -
  have a: "observe received
     (subscribe_stmt
        (pluck inherited ''a.b'' (from_values c [Obj [(''a'', Obj [(''b'', Num 7)])]]))
        (probe 0) world0)
     = Some [(0, Num 7)]"
    by (simp add: pluck_def map_stream_def createPlucker_def engine_defs proc_defs world0_def)
  have b: "subscribe_stmt (pluck inherited ''a.b'' (from_values c [Obj [(''a'', Null)]]))
       (probe 0) world0
     = Some (Inl TypeError)"
    by (simp add: pluck_def map_stream_def createPlucker_def engine_defs proc_defs world0_def)
  let ?P = "\<lambda>n. n < length (split_dot path) \<and>
           (plucker inherited (take n (split_dot path)) (Obj kvs) = Inr Null
            \<or> plucker inherited (take n (split_dot path)) (Obj kvs) = Inr Undefined)"
  have "(\<exists>n. ?P n) \<longleftrightarrow> (\<exists>n. 0 < n \<and> ?P n)"
  proof
    assume "\<exists>n. ?P n"
    then obtain n where n: "?P n"
      by blast
    have "n \<noteq> 0"
      using n by (cases n) auto
    with n show "\<exists>n. 0 < n \<and> ?P n"
      by auto
  qed blast
  then have c: "createPlucker inherited path (Obj kvs) = Inl TypeError \<longleftrightarrow>
        (\<exists>n. 0 < n \<and> ?P n)"
    unfolding createPlucker_def plucker_fails_iff by simp
  have d: "subscribe (pluck inherited path this) observer w =
       subscribe this
         (\<lambda>value w'. case createPlucker inherited path value of
                        Inl e \<Rightarrow> Some (Inl e)
                      | Inr u \<Rightarrow> observer u w') w"
    by (simp add: pluck_def map_stream_def nextOperator_subscribe throws_def
        cong: sum.case_cong)
  from a b c d show ?thesis
    by blast
qed

section \<open>log\<close>

text \<open>
  C1. With a \<open>pluckPath\<close>, \<open>log\<close> passes downstream the value it found at that
  path, the one it logs, and not the value it received: on receiving
  \<open>{item: {type: 'fruit', name: 'banana'}, count: 2}\<close>, \<open>log('Name:', 'item.name')\<close>
  logs \<open>banana\<close> and dispatches \<open>banana\<close>.
\<close>

theorem log_pluckPath_dispatches_plucked_value:
  "subscribe_stmt
     (log inherited ''Name:'' ''item.name''
        (from_values c
           [Obj [(''item'', Obj [(''type'', Str ''fruit''), (''name'', Str ''banana'')]),
                 (''count'', Num 2)]]))
     (probe 0) world0
   = Some (Inr (world0\<lparr> received := [(0, Str ''banana'')],
                        console_log := [(''Name:'', Str ''banana'')] \<rparr>))"
  by (simp add: log_def log_operation_def createPlucker_def engine_defs proc_defs world0_def)

lemma log_without_pluckPath:
  "log_operation inherited label [] value nextChannel w =
   nextChannel value (w\<lparr> console_log := console_log w @ [(label, value)] \<rparr>)"
  by (simp add: log_operation_def)

section \<open>The constructor of the streams the operators return\<close>

lemma nextOperator_operators_keep_constructor:
  "constructor (map_stream transform this) = constructor this"
  "constructor (filter_stream predicate this) = constructor this"
  "constructor (mapTo v this) = constructor this"
  "constructor (inverted this) = constructor this"
  "constructor (pluck inherited path this) = constructor this"
  "constructor (log inherited label pluckPath this) = constructor this"
  "constructor (debounce this) = constructor this"
  by (simp_all add: map_stream_def filter_stream_def mapTo_def inverted_def pluck_def
      log_def debounce_def nextOperator_def)

text \<open>
  C2. \<open>_remember\<close>, and \<open>dedupe\<close> which ends with it, return a
  \<open>MotionObservable\<close> whatever the class of the stream they are called on: called
  on a stream of a subclass they do not return a stream of that subclass.
\<close>

theorem remember_and_dedupe_return_base_class:
  "constructor (remember onext (source (Subclass n))) = MotionObservable
   \<and> constructor (dedupe areEqual onext (source (Subclass n))) = MotionObservable
   \<and> constructor (remember onext (source (Subclass n))) \<noteq> constructor (source (Subclass n))
   \<and> constructor (dedupe areEqual onext (inverted (source (Subclass n))))
       \<noteq> constructor (inverted (source (Subclass n)))"
  by (simp add: remember_def dedupe_def source_def inverted_def nextOperator_def)

section \<open>\<open>_remember\<close>: replay and teardown\<close>

lemma forEach_probe_from:
  "length (observers w) - i = k \<Longrightarrow>
   forEach_from (\<lambda>ob. probe ob v) i w =
     Some (Inr (w\<lparr> received :=
       received w @ map (\<lambda>ob. (ob, v)) (set_values (drop i (observers w))) \<rparr>))"
proof (induction k arbitrary: i w)
  case 0
  then show ?case
    by (subst forEach_from.simps) simp
next
  case (Suc k)
  then have lt: "i < length (observers w)"
    by simp
  then have dr: "drop i (observers w) = observers w ! i # drop (Suc i) (observers w)"
    by (simp add: Cons_nth_drop_Suc)
  show ?case
  proof (cases "observers w ! i")
    case None
    have k: "length (observers w) - Suc i = k"
      using Suc.prems by simp
    have "forEach_from (\<lambda>ob. probe ob v) i w = forEach_from (\<lambda>ob. probe ob v) (Suc i) w"
      using lt None by (subst forEach_from.simps) simp
    also note Suc.IH [OF k]
    finally show ?thesis
      using dr None by simp
  next
    case (Some ob)
    let ?w = "w\<lparr> received := received w @ [(ob, v)] \<rparr>"
    have k: "length (observers ?w) - Suc i = k"
      using Suc.prems by simp
    have "forEach_from (\<lambda>ob. probe ob v) i w = forEach_from (\<lambda>ob. probe ob v) (Suc i) ?w"
      using lt Some by (subst forEach_from.simps) (simp add: probe_def returns_def)
    also note Suc.IH [OF k]
    finally show ?thesis
      using dr Some by simp
  qed
qed

text \<open>With observers that only record, the fan-out ends: each observer in the set gets
  the value, in insertion order, and then the value is cached.\<close>

lemma remember_next_probe:
  "remember_next probe v w =
     Some (Inr (w\<lparr> received := received w @ map (\<lambda>ob. (ob, v)) (set_values (observers w)),
                  hasStarted := True, remember_lastValue := v \<rparr>))"
  using forEach_probe_from [of w 0 _ v] by (simp add: remember_next_def)

lemmas remember_probe_defs =
  remember_def remember_connect_def remember_disconnect_def remember_next_probe
  remember_upstream_def

text \<open>
  C3. On a remembered stream, observer 0 subscribes, the source dispatches 5, observer
  1 subscribes: the subscribe call of observer 1 delivers 5 to it. Observer 0
  unsubscribes, which leaves the subscription to the source in place; observer 1
  unsubscribes, and the source has been unsubscribed from once.
\<close>

theorem remember_replays_and_tears_down_once:
  "observe received
     (run [subscribe_stmt (remember probe (source c)) 0,
           source_dispatch (remember_upstream probe) (Num 5)] world0)
     = Some [(0, Num 5)]
   \<and> observe received
     (run [subscribe_stmt (remember probe (source c)) 0,
           source_dispatch (remember_upstream probe) (Num 5),
           subscribe_stmt (remember probe (source c)) 1] world0)
     = Some [(0, Num 5), (1, Num 5)]
   \<and> observe source_unsubscribes
     (run [subscribe_stmt (remember probe (source c)) 0,
           source_dispatch (remember_upstream probe) (Num 5),
           subscribe_stmt (remember probe (source c)) 1,
           unsubscribe (remember probe (source c)) (Some 0)] world0)
     = Some 0
   \<and> observe source_unsubscribes
     (run [subscribe_stmt (remember probe (source c)) 0,
           source_dispatch (remember_upstream probe) (Num 5),
           subscribe_stmt (remember probe (source c)) 1,
           unsubscribe (remember probe (source c)) (Some 0),
           unsubscribe (remember probe (source c)) (Some 1)] world0)
     = Some 1
   \<and> observe source_subscribes
     (run [subscribe_stmt (remember probe (source c)) 0,
           source_dispatch (remember_upstream probe) (Num 5),
           subscribe_stmt (remember probe (source c)) 1,
           unsubscribe (remember probe (source c)) (Some 0),
           unsubscribe (remember probe (source c)) (Some 1)] world0)
     = Some 1"
  by (simp add: remember_probe_defs source_defs set_defs engine_defs proc_defs world0_def)

section \<open>\<open>_remember\<close>: the order of fan-out and caching\<close>

lemma subscribing_next_other:
  "value \<noteq> trigger \<Longrightarrow>
   (\<lambda>observer. subscribing_next ob trigger newcomer this observer value)
     = (\<lambda>observer. probe observer value)"
  by (auto simp: subscribing_next_def fun_eq_iff)

text \<open>Where the callback only records for every observer but \<open>a\<close>, a stretch of
  the entries without \<open>a\<close> is passed through like that.\<close>

lemma forEach_probes_segment:
  assumes cb: "\<And>ob w. ob \<noteq> a \<Longrightarrow> cb ob w = probe ob v w"
  shows "Some a \<notin> set (take n (drop i (observers w))) \<Longrightarrow>
    i + n \<le> length (observers w) \<Longrightarrow>
    forEach_from cb i w =
    forEach_from cb (i + n)
      (w\<lparr> received := received w
          @ map (\<lambda>ob. (ob, v)) (set_values (take n (drop i (observers w)))) \<rparr>)"
proof (induction n arbitrary: i w)
  case 0
  then show ?case by simp
next
  case (Suc n)
  then have lt: "i < length (observers w)"
    by simp
  then have dr: "drop i (observers w) = observers w ! i # drop (Suc i) (observers w)"
    by (simp add: Cons_nth_drop_Suc)
  show ?case
  proof (cases "observers w ! i")
    case None
    have "forEach_from cb i w = forEach_from cb (Suc i) w"
      using lt None by (subst forEach_from.simps) simp
    also have "\<dots> = forEach_from cb (Suc i + n)
      (w\<lparr> received := received w
          @ map (\<lambda>ob. (ob, v)) (set_values (take n (drop (Suc i) (observers w)))) \<rparr>)"
      using Suc.prems dr by (intro Suc.IH) auto
    finally show ?thesis
      using dr None by simp
  next
    case (Some ob)
    let ?w = "w\<lparr> received := received w @ [(ob, v)] \<rparr>"
    have "ob \<noteq> a"
      using Suc.prems(1) dr Some by auto
    then have "cb ob w = Some (Inr ?w)"
      by (simp add: cb probe_def returns_def)
    then have "forEach_from cb i w = forEach_from cb (Suc i) ?w"
      using lt Some by (subst forEach_from.simps) simp
    also have "\<dots> = forEach_from cb (Suc i + n)
      (?w\<lparr> received := received ?w
          @ map (\<lambda>ob. (ob, v)) (set_values (take n (drop (Suc i) (observers ?w)))) \<rparr>)"
      using Suc.prems dr by (intro Suc.IH) auto
    finally show ?thesis
      using dr Some by simp
  qed
qed

lemma set_values_append: "set_values (xs @ ys) = set_values xs @ set_values ys"
  by (induction xs rule: set_values.induct) auto

text \<open>An observer \<open>a\<close> of the set subscribes \<open>b\<close> while it is handed \<open>v\<close>:
  \<open>b\<close> is replayed what was cached before \<open>v\<close>, if anything was, and is reached
  at the end by the \<open>forEach\<close> that is still running.\<close>

lemma remember_next_subscribing:
  assumes obs: "observers w = pre @ [Some a] @ post"
    and a: "Some a \<notin> set pre" "Some a \<notin> set post"
    and b: "Some b \<notin> set pre" "Some b \<notin> set post" "a \<noteq> b"
  shows "remember_next (subscribing_next a v b this) v w =
    Some (Inr (w\<lparr> received := received w
                      @ map (\<lambda>ob. (ob, v)) (set_values pre) @ [(a, v)]
                      @ (if hasStarted w then [(b, remember_lastValue w)] else [])
                      @ map (\<lambda>ob. (ob, v)) (set_values post) @ [(b, v)],
                  observers := pre @ [Some a] @ post @ [Some b],
                  hasStarted := True, remember_lastValue := v \<rparr>))"
proof -
  let ?cb = "\<lambda>observer. subscribing_next a v b this observer v"
  let ?p = "\<lambda>xs. map (\<lambda>ob. (ob, v)) (set_values xs)"
  let ?w1 = "w\<lparr> received := received w @ ?p pre \<rparr>"
  let ?w2 = "w\<lparr> received := received w @ ?p pre @ [(a, v)]
                      @ (if hasStarted w then [(b, remember_lastValue w)] else []),
                observers := pre @ [Some a] @ post @ [Some b] \<rparr>"
  let ?w3 = "?w2\<lparr> received := received ?w2 @ ?p post @ [(b, v)] \<rparr>"
  have ba: "b \<noteq> a"
    using b by simp
  have cb: "\<And>ob w. ob \<noteq> a \<Longrightarrow> ?cb ob w = probe ob v w"
    by (simp add: subscribing_next_def)
  have "forEach_from ?cb 0 w = forEach_from ?cb (0 + length pre)
      (w\<lparr> received := received w @ ?p (take (length pre) (drop 0 (observers w))) \<rparr>)"
    using obs a by (intro forEach_probes_segment [OF cb]) auto
  then have s1: "forEach_from ?cb 0 w = forEach_from ?cb (length pre) ?w1"
    using obs by simp
  have nb: "\<not> set_has (observers ?w1) b" "set_size (observers ?w1) \<noteq> 0"
    using obs b by (auto simp: set_has_def set_size_def)
  have "?cb a ?w1 = Some (Inr ?w2)"
    using nb obs
    by (simp add: subscribing_next_def remember_def remember_connect_def set_add_def
        engine_defs proc_defs)
  then have s2: "forEach_from ?cb (length pre) ?w1 = forEach_from ?cb (Suc (length pre)) ?w2"
    using obs by (subst forEach_from.simps) simp
  have "forEach_from ?cb (Suc (length pre)) ?w2 =
    forEach_from ?cb (Suc (length pre) + Suc (length post))
      (?w2\<lparr> received := received ?w2
          @ ?p (take (Suc (length post)) (drop (Suc (length pre)) (observers ?w2))) \<rparr>)"
    using a ba by (intro forEach_probes_segment [OF cb]) auto
  then have s3: "forEach_from ?cb (Suc (length pre)) ?w2 =
      forEach_from ?cb (Suc (length pre) + Suc (length post)) ?w3"
    by (simp add: set_values_append)
  have s4: "forEach_from ?cb (Suc (length pre) + Suc (length post)) ?w3 = Some (Inr ?w3)"
    by (subst forEach_from.simps) simp
  show ?thesis
    unfolding remember_next_def s1 s2 s3 s4 by simp
qed

text \<open>
  Against C4 as stated. Observer 0 subscribes to a remembered stream; the source
  dispatches 1, then 2; while observer 0 is handed the 2 it subscribes observer 1.
  Observer 1 is replayed 1, the value cached before, and only then receives 2 from the
  fan-out: the 2 was not yet cached when the fan-out ran.
\<close>

theorem remember_replays_stale_value_during_fanout:
  "observe received
     (run [subscribe_stmt
             (remember (subscribing_next 0 (Num 2) 1 (source MotionObservable))
                (source MotionObservable)) 0,
           source_dispatch
             (remember_upstream (subscribing_next 0 (Num 2) 1 (source MotionObservable)))
             (Num 1),
           source_dispatch
             (remember_upstream (subscribing_next 0 (Num 2) 1 (source MotionObservable)))
             (Num 2)]
        world0)
   = Some [(0, Num 1), (0, Num 2), (1, Num 1), (1, Num 2)]"
proof -
  let ?next = "subscribing_next 0 (Num 2) 1 (source MotionObservable)"
  let ?w1 = "world0\<lparr> source_subscribes := 1, source_live := [0], observers := [Some 0],
     subscription := Some (Some 0) \<rparr>"
  let ?w2 = "?w1\<lparr> received := [(0, Num 1)], hasStarted := True, remember_lastValue := Num 1 \<rparr>"
  have a: "subscribe_stmt (remember ?next (source MotionObservable)) 0 world0 = Some (Inr ?w1)"
    by (simp add: remember_def remember_connect_def source_def set_defs
        engine_defs proc_defs world0_def)
  have "remember_next ?next (Num 1) ?w1 = remember_next probe (Num 1) ?w1"
    by (simp add: remember_next_def subscribing_next_other)
  then have b: "source_dispatch (remember_upstream ?next) (Num 1) ?w1 = Some (Inr ?w2)"
    by (simp add: source_dispatch_def remember_upstream_def remember_next_probe proc_defs
        world0_def)
  have "observers ?w2 = [] @ [Some 0] @ []" "Some (0::nat) \<notin> set []" "Some (1::nat) \<notin> set []"
    "(0::nat) \<noteq> 1"
    by simp_all
  note remember_next_subscribing
    [OF this(1,2,2,3,3,4), of "Num 2" "source MotionObservable"]
  then have c: "source_dispatch (remember_upstream ?next) (Num 2) ?w2
      = Some (Inr (?w2\<lparr> received := [(0, Num 1), (0, Num 2), (1, Num 1), (1, Num 2)],
                        observers := [Some 0, Some 1],
                        hasStarted := True, remember_lastValue := Num 2 \<rparr>))"
    by (simp add: source_dispatch_def remember_upstream_def proc_defs world0_def)
  show ?thesis
    using a b c by (simp add: proc_defs observe_def)
qed

text \<open>
  C4, amended. A value from upstream is first passed to the observers registered at
  that moment, in registration order, and cached with the started flag set only after
  the fan-out. So an observer \<open>b\<close> that a registered observer \<open>a\<close> subscribes
  while it is handed \<open>v\<close> is replayed the value cached before \<open>v\<close> if the group
  had started, and nothing if it had not; it then receives \<open>v\<close> from the fan-out
  in progress, after the observers registered before it.
\<close>

theorem remember_fans_out_then_caches:
  assumes "observers w = pre @ [Some a] @ post"
    and "Some a \<notin> set pre" "Some a \<notin> set post"
    and "Some b \<notin> set pre" "Some b \<notin> set post" "a \<noteq> b"
  shows "remember_next probe v w0 =
      Some (Inr (w0\<lparr> received :=
                      received w0 @ map (\<lambda>ob. (ob, v)) (set_values (observers w0)),
                    hasStarted := True, remember_lastValue := v \<rparr>))
    \<and> remember_next (subscribing_next a v b this) v w =
      Some (Inr (w\<lparr> received := received w
                        @ map (\<lambda>ob. (ob, v)) (set_values pre) @ [(a, v)]
                        @ (if hasStarted w then [(b, remember_lastValue w)] else [])
                        @ map (\<lambda>ob. (ob, v)) (set_values post) @ [(b, v)],
                    observers := pre @ [Some a] @ post @ [Some b],
                    hasStarted := True, remember_lastValue := v \<rparr>))"
  using remember_next_subscribing [OF assms] remember_next_probe by simp

theorem remember_fans_out_then_caches_witness:
  "observers (world0\<lparr> observers := [Some 3, Some 0, None, Some 4], hasStarted := True,
                      remember_lastValue := Num 1 \<rparr>) = [Some 3] @ [Some 0] @ [None, Some 4]
   \<and> Some (0::nat) \<notin> set [Some 3] \<and> Some (0::nat) \<notin> set [None, Some 4]
   \<and> Some (1::nat) \<notin> set [Some 3] \<and> Some (1::nat) \<notin> set [None, Some 4]
   \<and> (0::nat) \<noteq> 1
   \<and> observe received
       (remember_next (subscribing_next 0 (Num 2) 1 (source MotionObservable)) (Num 2)
          (world0\<lparr> observers := [Some 3, Some 0, None, Some 4], hasStarted := True,
                    remember_lastValue := Num 1 \<rparr>))
     = Some [(3, Num 2), (0, Num 2), (1, Num 1), (4, Num 2), (1, Num 2)]"
proof -
  let ?w = "world0\<lparr> observers := [Some 3, Some 0, None, Some 4], hasStarted := True,
                      remember_lastValue := Num 1 \<rparr>"
  have h: "observers ?w = [Some 3] @ [Some 0] @ [None, Some 4]"
    "Some (0::nat) \<notin> set [Some 3]" "Some (0::nat) \<notin> set [None, Some 4]"
    "Some (1::nat) \<notin> set [Some 3]" "Some (1::nat) \<notin> set [None, Some 4]"
    "(0::nat) \<noteq> 1"
    by simp_all
  from remember_fans_out_then_caches [OF h, of "Num 2" world0 "source MotionObservable"]
  show ?thesis
    by (simp add: observe_def world0_def)
qed

section \<open>\<open>_remember\<close>: what the last unsubscribe leaves\<close>

lemma set_size_0: "set_size entries = 0 \<longleftrightarrow> (\<forall>ob. \<not> set_has entries ob)"
  unfolding set_size_def set_has_def
  by (induction entries) auto

lemma set_size_delete_le: "set_size (set_delete entries ob) \<le> set_size entries"
  unfolding set_size_def set_delete_def
  by (induction entries) auto

lemma set_size_delete:
  "set_has entries ob \<Longrightarrow> set_size (set_delete entries ob) < set_size entries"
  using set_size_delete_le [of _ ob]
  unfolding set_size_def set_delete_def set_has_def
  by (induction entries) (auto simp: less_Suc_eq_le)

text \<open>
  Against C5 as stated. Observer 0 subscribes to a remembered stream, the source
  dispatches 5, observer 0 unsubscribes: the source has no subscriber left. Observer 1
  then subscribes, the first subscriber again, and its subscribe call delivers it the
  5 that was cached before the teardown.
\<close>

theorem remember_replays_after_teardown:
  "observe received
     (run [subscribe_stmt (remember probe (source MotionObservable)) 0,
           source_dispatch (remember_upstream probe) (Num 5),
           unsubscribe (remember probe (source MotionObservable)) (Some 0)] world0)
     = Some [(0, Num 5)]
   \<and> observe source_live
     (run [subscribe_stmt (remember probe (source MotionObservable)) 0,
           source_dispatch (remember_upstream probe) (Num 5),
           unsubscribe (remember probe (source MotionObservable)) (Some 0)] world0)
     = Some []
   \<and> observe received
     (run [subscribe_stmt (remember probe (source MotionObservable)) 0,
           source_dispatch (remember_upstream probe) (Num 5),
           unsubscribe (remember probe (source MotionObservable)) (Some 0),
           subscribe_stmt (remember probe (source MotionObservable)) 1] world0)
     = Some [(0, Num 5), (1, Num 5)]"
  by (simp add: remember_probe_defs source_defs set_defs engine_defs proc_defs world0_def)

lemma set_size_0_values: "set_size entries = 0 \<Longrightarrow> set_values entries = []"
  unfolding set_size_def
  by (induction entries rule: set_values.induct) auto

text \<open>Values that arrive while nobody is registered reach no observer; the last of
  them is what the cache holds afterwards.\<close>

lemma next_each_remember_unobserved:
  "set_size (observers w) = 0 \<Longrightarrow> vs \<noteq> [] \<Longrightarrow>
   next_each (remember_next probe) vs w =
     Some (Inr (w\<lparr> hasStarted := True, remember_lastValue := last vs \<rparr>))"
proof (induction vs arbitrary: w)
  case Nil
  then show ?case by simp
next
  case (Cons v vs)
  let ?w = "w\<lparr> hasStarted := True, remember_lastValue := v \<rparr>"
  have one: "remember_next probe v w = Some (Inr ?w)"
    using Cons.prems(1) by (simp add: remember_next_probe set_size_0_values)
  show ?case
  proof (cases "vs = []")
    case True
    with one show ?thesis
      by (simp add: proc_defs)
  next
    case False
    have "set_size (observers ?w) = 0"
      using Cons.prems(1) by simp
    from Cons.IH [OF this False] one False show ?thesis
      by (simp add: proc_defs)
  qed
qed

text \<open>
  C5, amended. When the last subscriber of a remembered stream unsubscribes, the
  subscription to the parent is released and the shared handle cleared, and nothing
  else of the group is: the cached value and the started flag stay. The next first
  subscriber subscribes to the parent anew and is then replayed, within its subscribe
  call, what the cache holds at that moment, if the group has ever received a value.
  Whatever the parent, provided its unsubscribe and subscribe return, that is the
  cache as the parent's subscribe left it. Over a parent that dispatches nothing
  while it is subscribed to (a source, or an operator over it as in \<open>dedupe\<close>) it
  is the value cached before the teardown; over a parent that dispatches while it is
  subscribed to, it is the last value so dispatched.
\<close>

theorem remember_teardown_keeps_cache:
  assumes only: "set_has (observers w) ob" "set_size (observers w) = 1"
    and sub: "subscription w = Some sub"
  shows "(unsubscribe this sub (w\<lparr> observers := set_delete (observers w) ob \<rparr>) = Some (Inr wd)
      \<longrightarrow> remember_disconnect this ob w = Some (Inr (wd\<lparr> subscription := None \<rparr>)))
    \<and> (set_size (observers v) = 0
        \<and> subscribe this (remember_next probe) v = Some (Inr (sub', wu))
      \<longrightarrow> remember_connect probe this newcomer v
          = Some (Inr (Some newcomer,
              wu\<lparr> subscription := Some sub',
                  observers := set_add (observers wu) newcomer,
                  received := received wu
                    @ (if hasStarted wu then [(newcomer, remember_lastValue wu)] else []) \<rparr>)))
    \<and> ((this = source c \<or> this = nextOperator operation (source c))
        \<and> sub = Some h \<and> hasStarted w
      \<longrightarrow> (\<exists>w1 w2.
          remember_disconnect this ob w = Some (Inr w1)
          \<and> subscription w1 = None
          \<and> source_unsubscribes w1 = Suc (source_unsubscribes w)
          \<and> source_live w1 = removeAll h (source_live w)
          \<and> hasStarted w1 \<and> remember_lastValue w1 = remember_lastValue w
          \<and> remember_connect probe this newcomer w1 = Some (Inr (Some newcomer, w2))
          \<and> source_subscribes w2 = Suc (source_subscribes w)
          \<and> subscription w2 = Some (Some (source_subscribes w))
          \<and> received w2 = received w @ [(newcomer, remember_lastValue w)]))
    \<and> (this = from_values c vs \<and> vs \<noteq> [] \<and> sub = None
      \<longrightarrow> (\<exists>w1 w2.
          remember_disconnect this ob w = Some (Inr w1)
          \<and> subscription w1 = None
          \<and> hasStarted w1 = hasStarted w \<and> remember_lastValue w1 = remember_lastValue w
          \<and> remember_connect probe this newcomer w1 = Some (Inr (Some newcomer, w2))
          \<and> received w2 = received w @ [(newcomer, last vs)]))"
proof -
  have z: "set_size (set_delete (observers w) ob) = 0"
    using set_size_delete [OF only(1)] only(2) by simp
  then have nh: "\<not> set_has (set_delete (observers w) ob) newcomer"
    by (simp add: set_size_0)
  have down: "remember_disconnect this ob w = Some (Inr (wd\<lparr> subscription := None \<rparr>))"
    if "unsubscribe this sub (w\<lparr> observers := set_delete (observers w) ob \<rparr>) = Some (Inr wd)"
    using that z sub
    by (simp add: remember_disconnect_def Let_def)
  have up: "remember_connect probe this newcomer v
          = Some (Inr (Some newcomer,
              wu\<lparr> subscription := Some sub',
                  observers := set_add (observers wu) newcomer,
                  received := received wu
                    @ (if hasStarted wu then [(newcomer, remember_lastValue wu)] else []) \<rparr>))"
    if "set_size (observers v) = 0"
      and "subscribe this (remember_next probe) v = Some (Inr (sub', wu))"
  proof -
    have "\<not> set_has (observers v) newcomer"
      using that(1) by (simp add: set_size_0)
    with that show ?thesis
      by (simp add: remember_connect_def probe_def returns_def Let_def)
  qed
  have quiet: "\<exists>w1 w2.
          remember_disconnect this ob w = Some (Inr w1)
          \<and> subscription w1 = None
          \<and> source_unsubscribes w1 = Suc (source_unsubscribes w)
          \<and> source_live w1 = removeAll h (source_live w)
          \<and> hasStarted w1 \<and> remember_lastValue w1 = remember_lastValue w
          \<and> remember_connect probe this newcomer w1 = Some (Inr (Some newcomer, w2))
          \<and> source_subscribes w2 = Suc (source_subscribes w)
          \<and> subscription w2 = Some (Some (source_subscribes w))
          \<and> received w2 = received w @ [(newcomer, remember_lastValue w)]"
    if "this = source c \<or> this = nextOperator operation (source c)"
      and "sub = Some h" and "hasStarted w"
    using that(1)
  proof
    assume "this = source c"
    with z nh sub that(2,3) show ?thesis
      by (simp add: remember_connect_def remember_disconnect_def source_def engine_defs
          proc_defs Let_def)
  next
    assume "this = nextOperator operation (source c)"
    with z nh sub that(2,3) show ?thesis
      by (simp add: remember_connect_def remember_disconnect_def source_def engine_defs
          proc_defs Let_def)
  qed
  have cold: "\<exists>w1 w2.
          remember_disconnect this ob w = Some (Inr w1)
          \<and> subscription w1 = None
          \<and> hasStarted w1 = hasStarted w \<and> remember_lastValue w1 = remember_lastValue w
          \<and> remember_connect probe this newcomer w1 = Some (Inr (Some newcomer, w2))
          \<and> received w2 = received w @ [(newcomer, last vs)]"
    if "this = from_values c vs" and "vs \<noteq> []" and "sub = None"
  proof -
    let ?w1 = "w\<lparr> observers := set_delete (observers w) ob, subscription := None \<rparr>"
    have d: "remember_disconnect this ob w = Some (Inr ?w1)"
      using that z sub
      by (simp add: remember_disconnect_def from_values_def unsubscribe_def returns_def Let_def)
    have "set_size (observers ?w1) = 0"
      using z by simp
    note next_each_remember_unobserved [OF this that(2)]
    then have "remember_connect probe this newcomer ?w1 =
      Some (Inr (Some newcomer,
        ?w1\<lparr> hasStarted := True, remember_lastValue := last vs, subscription := Some None,
             observers := set_add (set_delete (observers w) ob) newcomer,
             received := received w @ [(newcomer, last vs)] \<rparr>))"
      using that(1) z nh
      by (simp add: remember_connect_def from_values_def subscribe_def probe_def returns_def
          Let_def)
    with d show ?thesis
      by simp
  qed
  from down up quiet cold show ?thesis
    by blast
qed

theorem remember_teardown_keeps_cache_witness:
  "set_has [Some 0] 0 \<and> set_size [Some 0] = 1
   \<and> unsubscribe (source MotionObservable) (Some 0)
       (world0\<lparr> received := [(0, Num 5)], source_subscribes := 1, source_live := [0],
                observers := [None], subscription := Some (Some 0),
                remember_lastValue := Num 5, hasStarted := True \<rparr>)
     = Some (Inr
       (world0\<lparr> received := [(0, Num 5)], source_subscribes := 1, source_unsubscribes := 1,
                observers := [None], subscription := Some (Some 0),
                remember_lastValue := Num 5, hasStarted := True \<rparr>))
   \<and> remember_disconnect (source MotionObservable) 0
       (world0\<lparr> received := [(0, Num 5)], source_subscribes := 1, source_live := [0],
                observers := [Some 0], subscription := Some (Some 0),
                remember_lastValue := Num 5, hasStarted := True \<rparr>)
     = Some (Inr
       (world0\<lparr> received := [(0, Num 5)], source_subscribes := 1, source_unsubscribes := 1,
                observers := [None], subscription := None,
                remember_lastValue := Num 5, hasStarted := True \<rparr>))
   \<and> set_size [None] = 0
   \<and> subscribe (source MotionObservable) (remember_next probe)
       (world0\<lparr> received := [(0, Num 5)], source_subscribes := 1, source_unsubscribes := 1,
                observers := [None], remember_lastValue := Num 5, hasStarted := True \<rparr>)
     = Some (Inr (Some 1,
       world0\<lparr> received := [(0, Num 5)], source_subscribes := 2, source_unsubscribes := 1,
                source_live := [1], observers := [None],
                remember_lastValue := Num 5, hasStarted := True \<rparr>))
   \<and> remember_connect probe (source MotionObservable) 1
       (world0\<lparr> received := [(0, Num 5)], source_subscribes := 1, source_unsubscribes := 1,
                observers := [None], remember_lastValue := Num 5, hasStarted := True \<rparr>)
     = Some (Inr (Some 1,
       world0\<lparr> received := [(0, Num 5), (1, Num 5)], source_subscribes := 2,
                source_unsubscribes := 1, source_live := [1], observers := [None, Some 1],
                subscription := Some (Some 1),
                remember_lastValue := Num 5, hasStarted := True \<rparr>))
   \<and> (\<exists>w1 w2.
     remember_disconnect (source MotionObservable) 0
       (world0\<lparr> received := [(0, Num 5)], source_subscribes := 1, source_live := [0],
                observers := [Some 0], subscription := Some (Some 0),
                remember_lastValue := Num 5, hasStarted := True \<rparr>) = Some (Inr w1)
     \<and> subscription w1 = None
     \<and> source_unsubscribes w1 = 1
     \<and> source_live w1 = []
     \<and> hasStarted w1 \<and> remember_lastValue w1 = Num 5
     \<and> remember_connect probe (source MotionObservable) 1 w1 = Some (Inr (Some 1, w2))
     \<and> source_subscribes w2 = 2
     \<and> subscription w2 = Some (Some 1)
     \<and> received w2 = [(0, Num 5), (1, Num 5)])
   \<and> (\<exists>w1 w2.
     remember_disconnect (from_values MotionObservable [Num 1]) 0
       (world0\<lparr> received := [(0, Num 0)], observers := [Some 0], subscription := Some None,
                remember_lastValue := Num 0, hasStarted := True \<rparr>) = Some (Inr w1)
     \<and> subscription w1 = None
     \<and> hasStarted w1 \<and> remember_lastValue w1 = Num 0
     \<and> remember_connect probe (from_values MotionObservable [Num 1]) 1 w1
         = Some (Inr (Some 1, w2))
     \<and> received w2 = [(0, Num 0), (1, Num 1)])"
proof -
  let ?w = "world0\<lparr> received := [(0, Num 5)], source_subscribes := 1, source_live := [0],
                observers := [Some 0], subscription := Some (Some 0),
                remember_lastValue := Num 5, hasStarted := True \<rparr>"
  let ?w1 = "world0\<lparr> received := [(0, Num 5)], source_subscribes := 1,
                source_unsubscribes := 1, observers := [None],
                subscription := Some (Some 0),
                remember_lastValue := Num 5, hasStarted := True \<rparr>"
  let ?w2 = "world0\<lparr> received := [(0, Num 5)], source_subscribes := 2,
                source_unsubscribes := 1, source_live := [1], observers := [None],
                remember_lastValue := Num 5, hasStarted := True \<rparr>"
  let ?v = "world0\<lparr> received := [(0, Num 0)], observers := [Some 0],
                subscription := Some None, remember_lastValue := Num 0, hasStarted := True \<rparr>"
  have b: "set_has (observers ?w) 0" "set_size (observers ?w) = 1"
    by (simp_all add: set_defs)
  have c: "subscription ?w = Some (Some 0)"
    by simp
  have b': "set_has (observers ?v) 0" "set_size (observers ?v) = 1"
    by (simp_all add: set_defs)
  have c': "subscription ?v = Some None"
    by simp
  have d: "unsubscribe (source MotionObservable) (Some 0)
      (?w\<lparr> observers := set_delete (observers ?w) 0 \<rparr>) = Some (Inr ?w1)"
    by (simp add: unsubscribe_def source_def returns_def set_defs world0_def)
  have e: "set_size (observers (?w1\<lparr> subscription := None \<rparr>)) = 0"
    by (simp add: set_defs)
  have f: "subscribe (source MotionObservable) (remember_next probe)
      (?w1\<lparr> subscription := None \<rparr>) = Some (Inr (Some 1, ?w2))"
    by (simp add: subscribe_def source_def world0_def)
  note t = remember_teardown_keeps_cache
    [OF b c, where this = "source MotionObservable" and c = MotionObservable and h = 0
       and newcomer = 1 and wd = ?w1 and v = "?w1\<lparr> subscription := None \<rparr>"
       and sub' = "Some 1" and wu = ?w2]
  from t d have down: "remember_disconnect (source MotionObservable) 0 ?w
      = Some (Inr (?w1\<lparr> subscription := None \<rparr>))"
    by blast
  from t e f have up: "remember_connect probe (source MotionObservable) 1
      (?w1\<lparr> subscription := None \<rparr>)
      = Some (Inr (Some 1,
          ?w2\<lparr> subscription := Some (Some 1),
               observers := set_add (observers ?w2) 1,
               received := received ?w2
                 @ (if hasStarted ?w2 then [(1, remember_lastValue ?w2)] else []) \<rparr>))"
    by blast
  from t have quiet: "\<exists>w1 w2.
     remember_disconnect (source MotionObservable) 0 ?w = Some (Inr w1)
     \<and> subscription w1 = None
     \<and> source_unsubscribes w1 = Suc (source_unsubscribes ?w)
     \<and> source_live w1 = removeAll 0 (source_live ?w)
     \<and> hasStarted w1 \<and> remember_lastValue w1 = remember_lastValue ?w
     \<and> remember_connect probe (source MotionObservable) 1 w1 = Some (Inr (Some 1, w2))
     \<and> source_subscribes w2 = Suc (source_subscribes ?w)
     \<and> subscription w2 = Some (Some (source_subscribes ?w))
     \<and> received w2 = received ?w @ [(1, remember_lastValue ?w)]"
    by simp
  from remember_teardown_keeps_cache
    [OF b' c', where this = "from_values MotionObservable [Num 1]" and c = MotionObservable
       and vs = "[Num 1]" and newcomer = 1]
  have cold: "\<exists>w1 w2.
     remember_disconnect (from_values MotionObservable [Num 1]) 0 ?v = Some (Inr w1)
     \<and> subscription w1 = None
     \<and> hasStarted w1 = hasStarted ?v \<and> remember_lastValue w1 = remember_lastValue ?v
     \<and> remember_connect probe (from_values MotionObservable [Num 1]) 1 w1
         = Some (Inr (Some 1, w2))
     \<and> received w2 = received ?v @ [(1, last [Num 1])]"
    by simp
  have g: "set_size [None] = 0"
    by (simp add: set_defs)
  from b d down f up quiet cold g show ?thesis
    by (simp add: set_defs world0_def numeral_2_eq_2)
qed

section \<open>dedupe\<close>

lemmas subject_defs =
  subject_def subject_next_def keep_def core.truncate_def core.extend_def world.fields_def

text \<open>
  Against C6 as stated. A subscriber of \<open>dedupe()\<close> over a source that dispatches
  1, 1, 2, 2, 2, 3 to each observer while it subscribes receives 3 only: the operation
  passes on 1, 2, 3, but \<open>_remember\<close> subscribes to its parent before it registers
  the subscriber, so the three values reach no observer and the last is replayed.
\<close>

theorem dedupe_over_cold_source_replays_last_only:
  "observe received
     (subscribe_stmt
        (dedupe deepEqual probe
           (from_values MotionObservable [Num 1, Num 1, Num 2, Num 2, Num 2, Num 3]))
        0 world0)
     = Some [(0, Num 3)]
   \<and> observe dedupe_lastValue
     (subscribe_stmt
        (dedupe deepEqual probe
           (from_values MotionObservable [Num 1, Num 1, Num 2, Num 2, Num 2, Num 3]))
        0 world0)
     = Some (Num 3)
   \<and> observe dispatched
     (subscribe_stmt
        (dedupe deepEqual probe
           (from_values MotionObservable [Num 1, Num 1, Num 2, Num 2, Num 2, Num 3]))
        0 world0)
     = Some True"
  by (simp add: dedupe_def dedupe_operation_def remember_probe_defs set_defs engine_defs
      proc_defs world0_def)

text \<open>
  C6, amended. A subscriber of \<open>dedupe()\<close> with the default predicate, whose
  upstream dispatches 1, 1, 2, 2, 2, 3 after it has subscribed, receives 1, 2, 3
  (the same values dispatched while it subscribes leave it with the replay of 3
  alone). When the operation does dispatch a value, \<open>dispatch\<close> runs in the state
  where \<open>lastValue\<close> is already that value and \<open>dispatched\<close> is already set.
\<close>

theorem dedupe_drops_repeats_and_updates_first:
  "observe received
     (run (subscribe_stmt (dedupe deepEqual probe (subject c)) 0
           # map subject_next [Num 1, Num 1, Num 2, Num 2, Num 2, Num 3]) world0)
     = Some [(0, Num 1), (0, Num 2), (0, Num 3)]
   \<and> observe received
     (run (subscribe_stmt (dedupe deepEqual probe (source c)) 0
           # map (source_dispatch (dedupe_upstream deepEqual probe))
               [Num 1, Num 1, Num 2, Num 2, Num 2, Num 3]) world0)
     = Some [(0, Num 1), (0, Num 2), (0, Num 3)]
   \<and> observe received
     (subscribe_stmt
        (dedupe deepEqual probe (from_values c [Num 1, Num 1, Num 2, Num 2, Num 2, Num 3]))
        0 world0)
     = Some [(0, Num 3)]
   \<and> (\<not> (dispatched w \<and> areEqual value (dedupe_lastValue w)) \<longrightarrow>
        dedupe_operation areEqual value dispatch w
          = dispatch value (w\<lparr> dedupe_lastValue := value, dispatched := True \<rparr>))"
proof -
  have a: "observe received
     (run (subscribe_stmt (dedupe deepEqual probe (subject c)) 0
           # map subject_next [Num 1, Num 1, Num 2, Num 2, Num 2, Num 3]) world0)
     = Some [(0, Num 1), (0, Num 2), (0, Num 3)]"
    by (simp add: dedupe_def dedupe_operation_def remember_probe_defs subject_defs set_defs
        engine_defs proc_defs world0_def)
  have b: "observe received
     (run (subscribe_stmt (dedupe deepEqual probe (source c)) 0
           # map (source_dispatch (dedupe_upstream deepEqual probe))
               [Num 1, Num 1, Num 2, Num 2, Num 2, Num 3]) world0)
     = Some [(0, Num 1), (0, Num 2), (0, Num 3)]"
    by (simp add: dedupe_def dedupe_upstream_def dedupe_operation_def remember_probe_defs
        source_defs set_defs engine_defs proc_defs world0_def)
  have c: "observe received
     (subscribe_stmt
        (dedupe deepEqual probe (from_values c [Num 1, Num 1, Num 2, Num 2, Num 2, Num 3]))
        0 world0)
     = Some [(0, Num 3)]"
    by (simp add: dedupe_def dedupe_operation_def remember_probe_defs set_defs engine_defs
        proc_defs world0_def)
  have d: "\<not> (dispatched w \<and> areEqual value (dedupe_lastValue w)) \<longrightarrow>
        dedupe_operation areEqual value dispatch w
          = dispatch value (w\<lparr> dedupe_lastValue := value, dispatched := True \<rparr>)"
    by (simp add: dedupe_operation_def)
  from a b c d show ?thesis
    by blast
qed

theorem dedupe_drops_repeats_and_updates_first_witness:
  "\<not> (dispatched world0 \<and> deepEqual (Num 1) (dedupe_lastValue world0))
   \<and> dedupe_operation deepEqual (Num 1) (probe 0) world0
     = probe 0 (Num 1) (world0\<lparr> dedupe_lastValue := Num 1, dispatched := True \<rparr>)"
  using dedupe_drops_repeats_and_updates_first
    [of MotionObservable world0 deepEqual "Num 1" "probe 0"]
  by (simp add: world0_def)

section \<open>debounce\<close>

lemmas debounce_defs =
  debounce_def debounce_upstream_def debounce_operation_def tick_def frame_callback_def

lemma received_values_append:
  "received_values (es @ fs) = received_values es @ received_values fs"
  by (induction es rule: received_values.induct) auto

lemma debounce_step_inv:
  assumes "debounce_inv vs w"
  shows "\<exists>w'. debounce_step e w = Some (Inr w') \<and> debounce_inv (vs @ received_values [e]) w'"
proof (cases e)
  case (Receive ob v)
  with assms show ?thesis
    by (auto simp: debounce_inv_def debounce_operation_def returns_def Let_def)
next
  case Tick
  with assms show ?thesis
    by (auto simp: debounce_inv_def tick_def frame_callback_def probe_def proc_defs)
qed

lemma debounce_run_inv:
  "debounce_inv vs w \<Longrightarrow>
   \<exists>w'. debounce_run es w = Some (Inr w') \<and> debounce_inv (vs @ received_values es) w'"
proof (induction es arbitrary: vs w)
  case Nil
  then show ?case
    by (simp add: returns_def)
next
  case (Cons e es)
  from debounce_step_inv [OF Cons.prems, of e]
  obtain w1 where w1: "debounce_step e w = Some (Inr w1)"
      "debounce_inv (vs @ received_values [e]) w1"
    by blast
  from Cons.IH [OF w1(2)] obtain w' where
    "debounce_run es w1 = Some (Inr w')"
    "debounce_inv ((vs @ received_values [e]) @ received_values es) w'"
    by blast
  moreover have "received_values (e # es) = received_values [e] @ received_values es"
    using received_values_append [of "[e]" es] by simp
  ultimately show ?case
    using w1(1) by (simp add: seq_def)
qed

lemma tick_delivers_at_most_once:
  assumes "debounce_inv vs w"
  shows "\<exists>w'. tick probe w = Some (Inr w') \<and>
    (received w' = received w
     \<or> (\<exists>ob. vs \<noteq> [] \<and> received w' = received w @ [(ob, last vs)]))"
  using assms
  by (auto simp: debounce_inv_def tick_def frame_callback_def probe_def proc_defs)

text \<open>The observer a debounced stream has registered at a subject does, on each value
  the subject is sent, what \<open>debounce_operation\<close> does.\<close>

lemma subject_next_debounce:
  "subject_observers w = [(h, keep (\<lambda>value. debounce_operation value ob))] \<Longrightarrow>
   subject_next v w = debounce_operation v ob w"
  by (simp add: subject_next_def keep_def core.truncate_def core.extend_def world.fields_def
      debounce_operation_def returns_def Let_def)

lemma clock_step_inv:
  assumes "debounce_inv vs w"
    and "snd ` set (frame_callbacks w) \<subseteq> {ob}"
    and "subject_observers w = [(h, keep (\<lambda>value. debounce_operation value ob))]"
  shows "\<exists>w'. clock_step e w = Some (Inr w')
    \<and> debounce_inv (vs @ upstream_values [e]) w'
    \<and> snd ` set (frame_callbacks w') \<subseteq> {ob}
    \<and> subject_observers w' = [(h, keep (\<lambda>value. debounce_operation value ob))]"
proof (cases e)
  case (Upstream v)
  with assms show ?thesis
    by (auto simp: subject_next_debounce debounce_inv_def debounce_operation_def returns_def
        Let_def)
next
  case Clock
  with assms show ?thesis
    by (auto simp: debounce_inv_def tick_def frame_callback_def probe_def proc_defs)
qed

lemma upstream_values_append:
  "upstream_values (es @ fs) = upstream_values es @ upstream_values fs"
  by (induction es rule: upstream_values.induct) auto

lemma clock_run_inv:
  "debounce_inv vs w \<Longrightarrow> snd ` set (frame_callbacks w) \<subseteq> {ob} \<Longrightarrow>
   subject_observers w = [(h, keep (\<lambda>value. debounce_operation value ob))] \<Longrightarrow>
   \<exists>w'. run (map clock_step es) w = Some (Inr w')
     \<and> debounce_inv (vs @ upstream_values es) w'
     \<and> snd ` set (frame_callbacks w') \<subseteq> {ob}"
proof (induction es arbitrary: vs w)
  case Nil
  then show ?case
    by (simp add: returns_def)
next
  case (Cons e es)
  from clock_step_inv [OF Cons.prems, of e]
  obtain w1 where w1: "clock_step e w = Some (Inr w1)"
      "debounce_inv (vs @ upstream_values [e]) w1"
      "snd ` set (frame_callbacks w1) \<subseteq> {ob}"
      "subject_observers w1 = [(h, keep (\<lambda>value. debounce_operation value ob))]"
    by blast
  from Cons.IH [OF w1(2,3,4)] obtain w' where
    "run (map clock_step es) w1 = Some (Inr w')"
    "debounce_inv ((vs @ upstream_values [e]) @ upstream_values es) w'"
    "snd ` set (frame_callbacks w') \<subseteq> {ob}"
    by blast
  moreover have "upstream_values (e # es) = upstream_values [e] @ upstream_values es"
    using upstream_values_append [of "[e]" es] by simp
  ultimately show ?case
    using w1(1) by (simp add: seq_def)
qed

lemma tick_delivers_to:
  assumes "debounce_inv vs w" and "snd ` set (frame_callbacks w) \<subseteq> {ob}"
  shows "\<exists>w'. tick probe w = Some (Inr w') \<and>
    (received w' = received w
     \<or> (vs \<noteq> [] \<and> received w' = received w @ [(ob, last vs)]))"
  using assms
  by (auto simp: debounce_inv_def tick_def frame_callback_def probe_def proc_defs)

text \<open>A subscriber of a debounced stream over a subject, then any values sent to the
  subject and any ticks: the next tick delivers the subscriber nothing, or the latest
  value sent, once.\<close>

lemma debounce_stream_next_tick:
  "\<exists>w w'. run (subscribe_stmt (debounce (subject c)) ob # map clock_step es) world0
        = Some (Inr w)
      \<and> tick probe w = Some (Inr w')
      \<and> (received w' = received w
         \<or> (upstream_values es \<noteq> []
             \<and> received w' = received w @ [(ob, last (upstream_values es))]))"
proof -
  let ?w1 = "world0\<lparr> source_subscribes := 1, source_live := [0],
      subject_observers := [(0, keep (\<lambda>value. debounce_operation value ob))] \<rparr>"
  have s: "subscribe_stmt (debounce (subject c)) ob world0 = Some (Inr ?w1)"
    by (simp add: debounce_def subject_def engine_defs world0_def)
  have "debounce_inv [] ?w1" "snd ` set (frame_callbacks ?w1) \<subseteq> {ob}"
    "subject_observers ?w1 = [(0, keep (\<lambda>value. debounce_operation value ob))]"
    by (simp_all add: debounce_inv_def world0_def)
  from clock_run_inv [OF this, of es] obtain w where
    w: "run (map clock_step es) ?w1 = Some (Inr w)" "debounce_inv (upstream_values es) w"
      "snd ` set (frame_callbacks w) \<subseteq> {ob}"
    by auto
  from tick_delivers_to [OF w(2,3)] w(1) s show ?thesis
    by (auto simp: seq_def)
qed

text \<open>
  C7. A subscriber of a debounced stream whose upstream, a subject, dispatches 1, 2, 3
  before any tick has received nothing yet; the next tick delivers it 3, once, and
  the tick after that delivers nothing more. The same holds over the source that
  counts its subscriptions, and over a source that dispatches the three values while
  the subscriber subscribes. Whatever values the subject is sent after the
  subscription and however many ticks have passed, the run returns and the next tick
  delivers the subscriber nothing or one value, the latest the stream received; and
  so it is for any sequence of values handed to the operation and ticks.
\<close>

theorem debounce_one_dispatch_per_tick:
  "observe received
     (run [subscribe_stmt (debounce (subject c)) 0,
           subject_next (Num 1), subject_next (Num 2), subject_next (Num 3)] world0)
     = Some []
   \<and> observe received
     (run [subscribe_stmt (debounce (subject c)) 0,
           subject_next (Num 1), subject_next (Num 2), subject_next (Num 3),
           tick probe] world0)
     = Some [(0, Num 3)]
   \<and> observe received
     (run [subscribe_stmt (debounce (subject c)) 0,
           subject_next (Num 1), subject_next (Num 2), subject_next (Num 3),
           tick probe, tick probe] world0)
     = Some [(0, Num 3)]
   \<and> observe received
     (run [subscribe_stmt (debounce (from_values c [Num 1, Num 2, Num 3])) 0,
           tick probe] world0)
     = Some [(0, Num 3)]
   \<and> (\<exists>w w'. run (subscribe_stmt (debounce (subject c)) ob # map clock_step cs) world0
          = Some (Inr w)
        \<and> tick probe w = Some (Inr w')
        \<and> (received w' = received w
           \<or> (upstream_values cs \<noteq> []
               \<and> received w' = received w @ [(ob, last (upstream_values cs))])))
   \<and> observe received
     (run [subscribe_stmt (debounce (source c)) 0,
           source_dispatch (debounce_upstream 0) (Num 1),
           source_dispatch (debounce_upstream 0) (Num 2),
           source_dispatch (debounce_upstream 0) (Num 3)] world0)
     = Some []
   \<and> observe received
     (run [subscribe_stmt (debounce (source c)) 0,
           source_dispatch (debounce_upstream 0) (Num 1),
           source_dispatch (debounce_upstream 0) (Num 2),
           source_dispatch (debounce_upstream 0) (Num 3),
           tick probe] world0)
     = Some [(0, Num 3)]
   \<and> observe received
     (run [subscribe_stmt (debounce (source c)) 0,
           source_dispatch (debounce_upstream 0) (Num 1),
           source_dispatch (debounce_upstream 0) (Num 2),
           source_dispatch (debounce_upstream 0) (Num 3),
           tick probe, tick probe] world0)
     = Some [(0, Num 3)]
   \<and> (\<exists>w w'. debounce_run es world0 = Some (Inr w) \<and> tick probe w = Some (Inr w') \<and>
        (received w' = received w
         \<or> (\<exists>ob. received_values es \<noteq> []
               \<and> received w' = received w @ [(ob, last (received_values es))])))"
proof -
  have a: "observe received
     (run [subscribe_stmt (debounce (subject c)) 0,
           subject_next (Num 1), subject_next (Num 2), subject_next (Num 3)] world0)
     = Some []"
    "observe received
     (run [subscribe_stmt (debounce (subject c)) 0,
           subject_next (Num 1), subject_next (Num 2), subject_next (Num 3),
           tick probe] world0)
     = Some [(0, Num 3)]"
    "observe received
     (run [subscribe_stmt (debounce (subject c)) 0,
           subject_next (Num 1), subject_next (Num 2), subject_next (Num 3),
           tick probe, tick probe] world0)
     = Some [(0, Num 3)]"
    "observe received
     (run [subscribe_stmt (debounce (from_values c [Num 1, Num 2, Num 3])) 0,
           tick probe] world0)
     = Some [(0, Num 3)]"
    by (simp_all add: debounce_defs subject_defs engine_defs proc_defs world0_def)
  have b: "observe received
     (run [subscribe_stmt (debounce (source c)) 0,
           source_dispatch (debounce_upstream 0) (Num 1),
           source_dispatch (debounce_upstream 0) (Num 2),
           source_dispatch (debounce_upstream 0) (Num 3)] world0)
     = Some []"
    "observe received
     (run [subscribe_stmt (debounce (source c)) 0,
           source_dispatch (debounce_upstream 0) (Num 1),
           source_dispatch (debounce_upstream 0) (Num 2),
           source_dispatch (debounce_upstream 0) (Num 3),
           tick probe] world0)
     = Some [(0, Num 3)]"
    "observe received
     (run [subscribe_stmt (debounce (source c)) 0,
           source_dispatch (debounce_upstream 0) (Num 1),
           source_dispatch (debounce_upstream 0) (Num 2),
           source_dispatch (debounce_upstream 0) (Num 3),
           tick probe, tick probe] world0)
     = Some [(0, Num 3)]"
    by (simp_all add: debounce_defs source_defs engine_defs proc_defs world0_def)
  have "debounce_inv [] world0"
    by (simp add: debounce_inv_def world0_def)
  from debounce_run_inv [OF this, of es] obtain w where
    w: "debounce_run es world0 = Some (Inr w)" "debounce_inv (received_values es) w"
    by auto
  from tick_delivers_at_most_once [OF w(2)] w(1)
  have d: "\<exists>w w'. debounce_run es world0 = Some (Inr w) \<and> tick probe w = Some (Inr w') \<and>
        (received w' = received w
         \<or> (\<exists>ob. received_values es \<noteq> []
               \<and> received w' = received w @ [(ob, last (received_values es))]))"
    by blast
  from a b d debounce_stream_next_tick [of c ob cs] show ?thesis
    by blast
qed

text \<open>
  Against C8 as stated. Observer 0 subscribes to a debounced stream, the source
  dispatches 1, observer 0 unsubscribes: it has received nothing and the source has
  no subscriber left. The clock then ticks, and observer 0 receives 1.
\<close>

theorem debounce_delivers_after_unsubscribe:
  "observe received
     (run [subscribe_stmt (debounce (source MotionObservable)) 0,
           source_dispatch (debounce_upstream 0) (Num 1),
           unsubscribe (debounce (source MotionObservable)) (Some 0)] world0)
     = Some []
   \<and> observe source_live
     (run [subscribe_stmt (debounce (source MotionObservable)) 0,
           source_dispatch (debounce_upstream 0) (Num 1),
           unsubscribe (debounce (source MotionObservable)) (Some 0)] world0)
     = Some []
   \<and> observe received
     (run [subscribe_stmt (debounce (source MotionObservable)) 0,
           source_dispatch (debounce_upstream 0) (Num 1),
           unsubscribe (debounce (source MotionObservable)) (Some 0),
           tick probe] world0)
     = Some [(0, Num 1)]"
  by (simp add: debounce_defs source_defs engine_defs proc_defs world0_def)

text \<open>
  C8, amended. Unsubscribing from a stream made by \<open>_nextOperator\<close>, a debounced
  stream included, releases the subscription to the parent and nothing else: the
  queue of frame callbacks is left as it was. A callback that \<open>_debounce\<close> had
  queued still runs at the next tick and delivers the buffered value to the
  subscriber that has unsubscribed.
\<close>

theorem unsubscribe_releases_upstream_only:
  "unsubscribe (debounce (source c)) (Some h) w =
     Some (Inr (w\<lparr> source_unsubscribes := Suc (source_unsubscribes w),
                  source_live := removeAll h (source_live w) \<rparr>))
   \<and> unsubscribe (nextOperator operation (source c)) (Some h) w =
     Some (Inr (w\<lparr> source_unsubscribes := Suc (source_unsubscribes w),
                  source_live := removeAll h (source_live w) \<rparr>))
   \<and> (frame_callbacks w = [(k, ob)] \<longrightarrow>
        observe received
          (run [unsubscribe (debounce (source c)) (Some h), tick probe] w)
        = Some (received w @ [(ob, debounce_lastValue w)]))"
  by (simp add: debounce_def tick_def frame_callback_def source_def engine_defs proc_defs)

theorem unsubscribe_releases_upstream_only_witness:
  "frame_callbacks (world0\<lparr> source_subscribes := 1, source_live := [0], queuedFrameID := 1,
       debounce_lastValue := Num 1, frame_callbacks := [(1, 0)], frame_counter := 1 \<rparr>)
     = [(1, 0)]
   \<and> observe received
       (run [unsubscribe (debounce (source MotionObservable)) (Some 0), tick probe]
          (world0\<lparr> source_subscribes := 1, source_live := [0], queuedFrameID := 1,
             debounce_lastValue := Num 1, frame_callbacks := [(1, 0)], frame_counter := 1 \<rparr>))
     = Some [(0, Num 1)]"
  using unsubscribe_releases_upstream_only
    [where c = MotionObservable and h = 0 and operation = inverted_operation
       and k = 1 and ob = 0
       and w = "world0\<lparr> source_subscribes := 1, source_live := [0], queuedFrameID := 1,
           debounce_lastValue := Num 1, frame_callbacks := [(1, 0)], frame_counter := 1 \<rparr>"]
  by (simp add: world0_def)

end
